theory Spec2Isabelle
  imports Main
begin

section \<open>The CSS selector builder of src/05-objects-tasks.js\<close>

text \<open>
  The builder part of the file is embedded: the constructor function \<open>Selector\<close>, the class
  \<open>Builder\<close> and the facade object \<open>cssSelectorBuilder\<close>. Part values are JavaScript
  strings, modelled as \<open>string\<close>. A field that holds \<open>null\<close> or a string is a
  \<open>string option\<close>. An exception is a value: a method that throws returns \<open>Inl\<close> with
  the error and the state the object was left in, since both throwing helpers mutate the
  builder before they throw.
\<close>

subsection \<open>JavaScript values\<close>

text \<open>Truthiness of a field that is \<open>null\<close> or a string: \<open>null\<close> and \<open>''\<close> are falsy.\<close>

definition truthy :: "string option \<Rightarrow> bool" where
  "truthy x = (case x of None \<Rightarrow> False | Some s \<Rightarrow> s \<noteq> [])"

text \<open>String conversion of such a field inside a template literal or a \<open>+=\<close>.\<close>

definition toString :: "string option \<Rightarrow> string" where
  "toString x = (case x of None \<Rightarrow> ''null'' | Some s \<Rightarrow> s)"

text \<open>\<open>Array.prototype.join\<close> on an array of strings.\<close>

fun join :: "string \<Rightarrow> string list \<Rightarrow> string" where
  "join sep [] = []"
| "join sep [x] = x"
| "join sep (x # y # ys) = x @ sep @ join sep (y # ys)"

subsection \<open>Selector\<close>

record Selector =
  element :: "string option"
  id' :: "string option"
  classes :: "string list"
  attributes :: "string list"
  pseudoClasses :: "string list"
  pseudoElement :: "string option"

text \<open>The state \<open>new Selector()\<close> is constructed in.\<close>

definition Selector_new :: Selector where
  "Selector_new =
     \<lparr>element = None, id' = None, classes = [], attributes = [], pseudoClasses = [],
      pseudoElement = None\<rparr>"

text \<open>
  \<open>Selector.stringify\<close> (lines 121 to 136): the text is built group by group, then
  the six fields are cleared. The result is the text and the object after the call.
\<close>

definition Selector_stringify :: "Selector \<Rightarrow> string \<times> Selector" where
  "Selector_stringify this =
     (let result = [];
          result = (if truthy (element this) then result @ toString (element this) else result);
          result = (if truthy (id' this) then result @ ''#'' @ toString (id' this) else result);
          result = (if length (classes this) \<noteq> 0
                    then result @ ''.'' @ join ''.'' (classes this) else result);
          result = (if length (attributes this) \<noteq> 0
                    then result @ ''['' @ join '']['' (attributes this) @ '']'' else result);
          result = (if length (pseudoClasses this) \<noteq> 0
                    then result @ '':'' @ join '':'' (pseudoClasses this) else result);
          result = (if truthy (pseudoElement this)
                    then result @ ''::'' @ toString (pseudoElement this) else result)
      in (result,
          this\<lparr>element := None, id' := None, classes := [], attributes := [],
               pseudoClasses := [], pseudoElement := None\<rparr>))"

subsection \<open>Builder\<close>

text \<open>
  Each \<open>Selector\<close> is created by a \<open>Builder\<close> (in its constructor or in one of the two
  throwing helpers) and no method hands it out, so the builder owns it and the record holds
  it by value.
\<close>

record Builder =
  order :: int
  current :: Selector
  combined :: string

definition Builder_new :: Builder where
  "Builder_new = \<lparr>order = - 1, current = Selector_new, combined = []\<rparr>"

text \<open>
  The two errors thrown, told apart by their messages. The names are those of the
  specification.
\<close>

datatype error = OrderViolation | DuplicateSingleton

fun message :: "error \<Rightarrow> string" where
  "message OrderViolation =
     ''Selector parts should be arranged in the following order: element, id, class, attribute, pseudo-class, pseudo-element''"
| "message DuplicateSingleton =
     ''Element, id and pseudo-element should not occur more then one time inside the selector''"

text \<open>
  The outcome of a method that may throw: \<open>Inl (e, b)\<close> when it throws \<open>e\<close> and leaves the
  builder as \<open>b\<close>, \<open>Inr b\<close> when it returns \<open>this\<close>, left as \<open>b\<close>.
\<close>

type_synonym outcome = "(error \<times> Builder) + Builder"

text \<open>\<open>Builder.stringify\<close> (lines 146 to 151). The operator \<open>||\<close> does not evaluate its
  right operand when \<open>this.combined\<close> is a non-empty string.\<close>

definition Builder_stringify :: "Builder \<Rightarrow> string \<times> Builder" where
  "Builder_stringify this =
     (let (result, cur) =
            (if combined this \<noteq> [] then (combined this, current this)
             else Selector_stringify (current this))
      in (result, this\<lparr>current := cur, order := - 1, combined := []\<rparr>))"

text \<open>\<open>Builder.throwOrderError\<close> (lines 217 to 221).\<close>

definition throwOrderError :: "Builder \<Rightarrow> outcome" where
  "throwOrderError this = Inl (OrderViolation, this\<lparr>order := - 1, current := Selector_new\<rparr>)"

text \<open>\<open>Builder.checkPropertyExistance\<close> (lines 209 to 215), called with one of the keys
  \<open>'element'\<close>, \<open>'id'\<close> and \<open>'pseudoElement'\<close>.\<close>

datatype property = Prop_element | Prop_id | Prop_pseudoElement

fun lookup :: "Selector \<Rightarrow> property \<Rightarrow> string option" where
  "lookup s Prop_element = element s"
| "lookup s Prop_id = id' s"
| "lookup s Prop_pseudoElement = pseudoElement s"

definition checkPropertyExistance :: "property \<Rightarrow> Builder \<Rightarrow> outcome" where
  "checkPropertyExistance p this =
     (if truthy (lookup (current this) p)
      then Inl (DuplicateSingleton, this\<lparr>order := - 1, current := Selector_new\<rparr>)
      else Inr this)"

text \<open>The six part-adding methods (lines 153 to 202).\<close>

definition Builder_element :: "string \<Rightarrow> Builder \<Rightarrow> outcome" where
  "Builder_element val this =
     (let weight = 0 in
      if order this > weight then throwOrderError this
      else case checkPropertyExistance Prop_element this of
             Inl e \<Rightarrow> Inl e
           | Inr this \<Rightarrow>
               Inr (this\<lparr>current := (current this)\<lparr>element := Some val\<rparr>, order := weight\<rparr>))"

definition Builder_id :: "string \<Rightarrow> Builder \<Rightarrow> outcome" where
  "Builder_id val this =
     (let weight = 1 in
      if order this > weight then throwOrderError this
      else case checkPropertyExistance Prop_id this of
             Inl e \<Rightarrow> Inl e
           | Inr this \<Rightarrow>
               Inr (this\<lparr>current := (current this)\<lparr>id' := Some val\<rparr>, order := weight\<rparr>))"

definition Builder_class :: "string \<Rightarrow> Builder \<Rightarrow> outcome" where
  "Builder_class val this =
     (let weight = 2 in
      if order this > weight then throwOrderError this
      else Inr (this\<lparr>current := (current this)\<lparr>classes := classes (current this) @ [val]\<rparr>,
                     order := weight\<rparr>))"

definition Builder_attr :: "string \<Rightarrow> Builder \<Rightarrow> outcome" where
  "Builder_attr val this =
     (let weight = 3 in
      if order this > weight then throwOrderError this
      else Inr (this\<lparr>current := (current this)\<lparr>attributes := attributes (current this) @ [val]\<rparr>,
                     order := weight\<rparr>))"

definition Builder_pseudoClass :: "string \<Rightarrow> Builder \<Rightarrow> outcome" where
  "Builder_pseudoClass val this =
     (let weight = 4 in
      if order this > weight then throwOrderError this
      else Inr (this\<lparr>current :=
                       (current this)\<lparr>pseudoClasses := pseudoClasses (current this) @ [val]\<rparr>,
                     order := weight\<rparr>))"

definition Builder_pseudoElement :: "string \<Rightarrow> Builder \<Rightarrow> outcome" where
  "Builder_pseudoElement val this =
     (let weight = 5 in
      if order this > weight then throwOrderError this
      else case checkPropertyExistance Prop_pseudoElement this of
             Inl e \<Rightarrow> Inl e
           | Inr this \<Rightarrow>
               Inr (this\<lparr>current := (current this)\<lparr>pseudoElement := Some val\<rparr>,
                         order := weight\<rparr>))"

subsection \<open>Part kinds and chains of calls\<close>

datatype kind = Element | Id | Class | Attr | PseudoClass | PseudoElement

text \<open>The constant \<open>weight\<close> of the method of each kind.\<close>

fun rank :: "kind \<Rightarrow> int" where
  "rank Element = 0"
| "rank Id = 1"
| "rank Class = 2"
| "rank Attr = 3"
| "rank PseudoClass = 4"
| "rank PseudoElement = 5"

text \<open>A call of the part-adding method of a kind.\<close>

fun addPart :: "kind \<Rightarrow> string \<Rightarrow> Builder \<Rightarrow> outcome" where
  "addPart Element v = Builder_element v"
| "addPart Id v = Builder_id v"
| "addPart Class v = Builder_class v"
| "addPart Attr v = Builder_attr v"
| "addPart PseudoClass v = Builder_pseudoClass v"
| "addPart PseudoElement v = Builder_pseudoElement v"

text \<open>The builder a call leaves behind, whether it returned or threw.\<close>

fun after :: "outcome \<Rightarrow> Builder" where
  "after (Inl (e, b)) = b"
| "after (Inr b) = b"

text \<open>A fluent chain \<open>b.k1(v1).k2(v2)...\<close>: the first call that throws ends the chain.\<close>

fun chain :: "(kind \<times> string) list \<Rightarrow> Builder \<Rightarrow> outcome" where
  "chain [] b = Inr b"
| "chain (p # ps) b =
     (case addPart (fst p) (snd p) b of Inl e \<Rightarrow> Inl e | Inr b' \<Rightarrow> chain ps b')"

text \<open>A chain on a new builder, ended by \<open>stringify()\<close>.\<close>

definition chain_stringify :: "(kind \<times> string) list \<Rightarrow> (error \<times> Builder) + (string \<times> Builder)" where
  "chain_stringify ps =
     (case chain ps Builder_new of Inl e \<Rightarrow> Inl e | Inr b \<Rightarrow> Inr (Builder_stringify b))"

subsection \<open>Builder objects in a store\<close>

text \<open>
  \<open>combine\<close> receives two builders and calls \<open>stringify\<close> on them, and the facade creates a
  builder per call, so the identity of builders matters. A store maps references to builder
  objects; \<open>nxt\<close> is the next unused reference, and \<open>new Builder()\<close> takes it. Client
  code holds the references the facade has returned to it, which are below \<open>nxt\<close>; the
  cells from \<open>nxt\<close> on are overwritten when they are allocated.
\<close>

type_synonym ref = nat

record heap =
  cells :: "ref \<Rightarrow> Builder"
  nxt :: ref

definition heap_empty :: heap where
  "heap_empty = \<lparr>cells = (\<lambda>r. Builder_new), nxt = 0\<rparr>"

definition new_Builder :: "heap \<Rightarrow> ref \<times> heap" where
  "new_Builder h = (nxt h, h\<lparr>cells := (cells h)(nxt h := Builder_new), nxt := Suc (nxt h)\<rparr>)"

text \<open>A part-adding method called on the object at \<open>r\<close>: it throws or returns \<open>this\<close>.\<close>

definition invoke :: "(Builder \<Rightarrow> outcome) \<Rightarrow> ref \<Rightarrow> heap \<Rightarrow> (error + ref) \<times> heap" where
  "invoke m r h =
     (case m (cells h r) of
        Inl (e, b) \<Rightarrow> (Inl e, h\<lparr>cells := (cells h)(r := b)\<rparr>)
      | Inr b \<Rightarrow> (Inr r, h\<lparr>cells := (cells h)(r := b)\<rparr>))"

text \<open>\<open>stringify\<close> called on the object at \<open>r\<close>.\<close>

definition stringify :: "ref \<Rightarrow> heap \<Rightarrow> string \<times> heap" where
  "stringify r h =
     (let (result, b) = Builder_stringify (cells h r)
      in (result, h\<lparr>cells := (cells h)(r := b)\<rparr>))"

text \<open>
  \<open>Builder.combine\<close> (lines 204 to 207) on the object at \<open>this\<close>: the template literal
  evaluates \<open>selector1.stringify()\<close>, then \<open>selector2.stringify()\<close>, and the text is then
  stored in \<open>this.combined\<close>.
\<close>

definition Builder_combine :: "ref \<Rightarrow> ref \<Rightarrow> string \<Rightarrow> ref \<Rightarrow> heap \<Rightarrow> ref \<times> heap" where
  "Builder_combine this selector1 combinator selector2 h =
     (let (s1, h) = stringify selector1 h;
          (s2, h) = stringify selector2 h
      in (this,
          h\<lparr>cells := (cells h)
               (this := (cells h this)\<lparr>combined := s1 @ '' '' @ combinator @ '' '' @ s2\<rparr>)\<rparr>))"

subsection \<open>The facade cssSelectorBuilder\<close>

text \<open>Lines 224 to 252: each function creates a builder and calls the method of its name.\<close>

definition cssSelectorBuilder_element :: "string \<Rightarrow> heap \<Rightarrow> (error + ref) \<times> heap" where
  "cssSelectorBuilder_element val h =
     (let (r, h) = new_Builder h in invoke (Builder_element val) r h)"

definition cssSelectorBuilder_id :: "string \<Rightarrow> heap \<Rightarrow> (error + ref) \<times> heap" where
  "cssSelectorBuilder_id val h =
     (let (r, h) = new_Builder h in invoke (Builder_id val) r h)"

definition cssSelectorBuilder_class :: "string \<Rightarrow> heap \<Rightarrow> (error + ref) \<times> heap" where
  "cssSelectorBuilder_class val h =
     (let (r, h) = new_Builder h in invoke (Builder_class val) r h)"

definition cssSelectorBuilder_attr :: "string \<Rightarrow> heap \<Rightarrow> (error + ref) \<times> heap" where
  "cssSelectorBuilder_attr val h =
     (let (r, h) = new_Builder h in invoke (Builder_attr val) r h)"

definition cssSelectorBuilder_pseudoClass :: "string \<Rightarrow> heap \<Rightarrow> (error + ref) \<times> heap" where
  "cssSelectorBuilder_pseudoClass val h =
     (let (r, h) = new_Builder h in invoke (Builder_pseudoClass val) r h)"

definition cssSelectorBuilder_pseudoElement :: "string \<Rightarrow> heap \<Rightarrow> (error + ref) \<times> heap" where
  "cssSelectorBuilder_pseudoElement val h =
     (let (r, h) = new_Builder h in invoke (Builder_pseudoElement val) r h)"

definition cssSelectorBuilder_combine :: "ref \<Rightarrow> string \<Rightarrow> ref \<Rightarrow> heap \<Rightarrow> ref \<times> heap" where
  "cssSelectorBuilder_combine selector1 combinator selector2 h =
     (let (r, h) = new_Builder h in Builder_combine r selector1 combinator selector2 h)"

subsection \<open>Notions used to state the properties\<close>

text \<open>The kinds with a cardinality check, and the selector field each of them is kept in.\<close>

fun singleton :: "kind \<Rightarrow> bool" where
  "singleton Element = True"
| "singleton Id = True"
| "singleton PseudoElement = True"
| "singleton k = False"

fun held :: "kind \<Rightarrow> Selector \<Rightarrow> string option" where
  "held Element s = element s"
| "held Id s = id' s"
| "held PseudoElement s = pseudoElement s"
| "held k s = None"

text \<open>The kinds without a cardinality check.\<close>

definition repeatable :: "kind \<Rightarrow> bool" where
  "repeatable k = (k = Class \<or> k = Attr \<or> k = PseudoClass)"

text \<open>What a part-adding call that passes its checks writes into the selector.\<close>

fun put :: "kind \<Rightarrow> string \<Rightarrow> Selector \<Rightarrow> Selector" where
  "put Element v s = s\<lparr>element := Some v\<rparr>"
| "put Id v s = s\<lparr>id' := Some v\<rparr>"
| "put Class v s = s\<lparr>classes := classes s @ [v]\<rparr>"
| "put Attr v s = s\<lparr>attributes := attributes s @ [v]\<rparr>"
| "put PseudoClass v s = s\<lparr>pseudoClasses := pseudoClasses s @ [v]\<rparr>"
| "put PseudoElement v s = s\<lparr>pseudoElement := Some v\<rparr>"

text \<open>The state both throwing helpers leave a builder in.\<close>

definition discard :: "Builder \<Rightarrow> Builder" where
  "discard b = b\<lparr>order := - 1, current := Selector_new\<rparr>"

text \<open>The syntax of one part, as the specification lists it:
  \<open>tag\<close>, \<open>#id\<close>, \<open>.class\<close>, \<open>[clause]\<close>, \<open>:pseudo\<close>, \<open>::pseudoElement\<close>.\<close>

fun part_text :: "kind \<Rightarrow> string \<Rightarrow> string" where
  "part_text Element v = v"
| "part_text Id v = ''#'' @ v"
| "part_text Class v = ''.'' @ v"
| "part_text Attr v = ''['' @ v @ '']''"
| "part_text PseudoClass v = '':'' @ v"
| "part_text PseudoElement v = ''::'' @ v"

text \<open>The values a chain supplies for a kind, in the order of the calls.\<close>

definition supplied :: "kind \<Rightarrow> (kind \<times> string) list \<Rightarrow> string list" where
  "supplied k ps = map snd (filter (\<lambda>p. fst p = k) ps)"

text \<open>The text the specification gives for a chain: the groups in the fixed order, each
  the concatenation of the syntax of its parts; a kind the chain does not supply adds
  nothing.\<close>

definition canonical :: "(kind \<times> string) list \<Rightarrow> string" where
  "canonical ps =
     concat (map (part_text Element) (supplied Element ps)) @
     concat (map (part_text Id) (supplied Id ps)) @
     concat (map (part_text Class) (supplied Class ps)) @
     concat (map (part_text Attr) (supplied Attr ps)) @
     concat (map (part_text PseudoClass) (supplied PseudoClass ps)) @
     concat (map (part_text PseudoElement) (supplied PseudoElement ps))"

text \<open>The text one group of a selector contributes to \<open>Selector.stringify\<close>.\<close>

fun segment :: "kind \<Rightarrow> Selector \<Rightarrow> string" where
  "segment Element s = (if truthy (element s) then toString (element s) else [])"
| "segment Id s = (if truthy (id' s) then ''#'' @ toString (id' s) else [])"
| "segment Class s = concat (map (part_text Class) (classes s))"
| "segment Attr s = concat (map (part_text Attr) (attributes s))"
| "segment PseudoClass s = concat (map (part_text PseudoClass) (pseudoClasses s))"
| "segment PseudoElement s =
     (if truthy (pseudoElement s) then ''::'' @ toString (pseudoElement s) else [])"

definition kinds :: "kind list" where
  "kinds = [Element, Id, Class, Attr, PseudoClass, PseudoElement]"

text \<open>The text of the groups up to and including that of a kind, and of the groups behind it.\<close>

definition upto_group :: "kind \<Rightarrow> Selector \<Rightarrow> string" where
  "upto_group k s = concat (map (\<lambda>j. segment j s) (filter (\<lambda>j. rank j \<le> rank k) kinds))"

definition behind_group :: "kind \<Rightarrow> Selector \<Rightarrow> string" where
  "behind_group k s = concat (map (\<lambda>j. segment j s) (filter (\<lambda>j. rank k < rank j) kinds))"

text \<open>A facade call of the part-adding function of a kind.\<close>

fun cssSelectorBuilder_part :: "kind \<Rightarrow> string \<Rightarrow> heap \<Rightarrow> (error + ref) \<times> heap" where
  "cssSelectorBuilder_part Element v = cssSelectorBuilder_element v"
| "cssSelectorBuilder_part Id v = cssSelectorBuilder_id v"
| "cssSelectorBuilder_part Class v = cssSelectorBuilder_class v"
| "cssSelectorBuilder_part Attr v = cssSelectorBuilder_attr v"
| "cssSelectorBuilder_part PseudoClass v = cssSelectorBuilder_pseudoClass v"
| "cssSelectorBuilder_part PseudoElement v = cssSelectorBuilder_pseudoElement v"

text \<open>What client code can do with the facade and with the builders it holds: call a
  facade function, or call a method on a builder.\<close>

datatype action =
    Facade_part kind string
  | Facade_combine ref string ref
  | Call_part ref kind string
  | Call_stringify ref
  | Call_combine ref ref string ref

fun exec :: "action \<Rightarrow> heap \<Rightarrow> heap" where
  "exec (Facade_part k v) h = snd (cssSelectorBuilder_part k v h)"
| "exec (Facade_combine a c b) h = snd (cssSelectorBuilder_combine a c b h)"
| "exec (Call_part r k v) h = snd (invoke (addPart k v) r h)"
| "exec (Call_stringify r) h = snd (stringify r h)"
| "exec (Call_combine r a c b) h = snd (Builder_combine r a c b h)"

fun run :: "action list \<Rightarrow> heap \<Rightarrow> heap" where
  "run [] h = h"
| "run (a # as) h = run as (exec a h)"

text \<open>The actions that call a facade function.\<close>

fun factory :: "action \<Rightarrow> bool" where
  "factory (Facade_part k v) = True"
| "factory (Facade_combine a c b) = True"
| "factory x = False"

subsection \<open>Example client code\<close>

text \<open>The third example of the comment above \<open>Selector\<close> (lines 96 to 109), up to the
  outermost \<open>combine\<close>. JavaScript evaluates the arguments of a call from left to right
  before the call, so the builders are created in this order: 0 for \<open>div\<close>, 1 for \<open>table\<close>,
  2 for \<open>tr\<close>, 3 for \<open>td\<close>, 4 for the innermost \<open>combine\<close>, 5 for the middle one.\<close>

definition nested_example :: heap where
  "nested_example =
     run [Facade_part Element ''div'', Call_part 0 Id ''main'', Call_part 0 Class ''container'',
          Call_part 0 Class ''draggable'',
          Facade_part Element ''table'', Call_part 1 Id ''data'',
          Facade_part Element ''tr'', Call_part 2 PseudoClass ''nth-of-type(even)'',
          Facade_part Element ''td'', Call_part 3 PseudoClass ''nth-of-type(even)'',
          Facade_combine 2 '' '' 3,
          Facade_combine 1 ''~'' 4] heap_empty"

text \<open>\<open>const c = builder.combine(builder.element('a'), '+', builder.element('b'))\<close>:
  the builder \<open>c\<close> is at 2.\<close>

definition combined_example :: heap where
  "combined_example =
     run [Facade_part Element ''a'', Facade_part Element ''b'', Facade_combine 0 ''+'' 1]
       heap_empty"

text \<open>The same, followed by \<open>c.element('div')\<close>.\<close>

definition mixed_example :: heap where
  "mixed_example =
     run [Facade_part Element ''a'', Facade_part Element ''b'', Facade_combine 0 ''+'' 1,
          Call_part 2 Element ''div''] heap_empty"

text \<open>\<open>const p = builder.id('main').class('container')\<close> at 0 and
  \<open>const q = builder.element('a').attr('href')\<close> at 1.\<close>

definition two_chains_example :: heap where
  "two_chains_example =
     run [Facade_part Id ''main'', Call_part 0 Class ''container'',
          Facade_part Element ''a'', Call_part 1 Attr ''href''] heap_empty"

section \<open>Properties\<close>

subsection \<open>One part-adding call\<close>

text \<open>Unfolding all six methods and the two helpers they call.\<close>

lemmas method_defs =
  Builder_element_def Builder_id_def Builder_class_def Builder_attr_def
  Builder_pseudoClass_def Builder_pseudoElement_def throwOrderError_def
  checkPropertyExistance_def

text \<open>Unfolding everything, to run the example client code.\<close>

lemmas facade_defs =
  cssSelectorBuilder_element_def cssSelectorBuilder_id_def cssSelectorBuilder_class_def
  cssSelectorBuilder_attr_def cssSelectorBuilder_pseudoClass_def
  cssSelectorBuilder_pseudoElement_def cssSelectorBuilder_combine_def

lemmas eval_defs =
  facade_defs method_defs new_Builder_def invoke_def stringify_def Builder_combine_def
  Builder_stringify_def Selector_stringify_def heap_empty_def Builder_new_def Selector_new_def
  truthy_def toString_def

text \<open>The six methods follow one pattern: the ordering check, then for a singleton kind the
  cardinality check, then the store and the new rank.\<close>

lemma addPart_eq:
  "addPart k v b =
     (if rank k < order b then Inl (OrderViolation, discard b)
      else if singleton k \<and> truthy (held k (current b)) then Inl (DuplicateSingleton, discard b)
      else Inr (b\<lparr>current := put k v (current b), order := rank k\<rparr>))"
  by (cases k)
     (simp_all add: Builder_element_def Builder_id_def Builder_class_def Builder_attr_def
        Builder_pseudoClass_def Builder_pseudoElement_def throwOrderError_def
        checkPropertyExistance_def discard_def)

lemma addPart_order: "addPart k v b = Inr b1 \<Longrightarrow> order b1 = rank k"
  by (auto simp: addPart_eq split: if_splits)

lemma chain_order:
  "chain ps b = Inr b' \<Longrightarrow> ps \<noteq> [] \<Longrightarrow> order b' = rank (fst (last ps))"
proof (induction ps arbitrary: b)
  case Nil
  then show ?case by simp
next
  case (Cons p ps)
  from Cons.prems(1) obtain b1 where b1: "addPart (fst p) (snd p) b = Inr b1" "chain ps b1 = Inr b'"
    by (auto split: sum.splits)
  show ?case
  proof (cases "ps = []")
    case True
    with b1 show ?thesis by (simp add: addPart_order)
  next
    case False
    with Cons.IH [OF b1(2)] show ?thesis by simp
  qed
qed

lemma addPart_combined: "combined (after (addPart k v b)) = combined b"
  by (simp add: addPart_eq discard_def)

lemma held_put_other: "j \<noteq> k \<Longrightarrow> held j (put k v s) = held j s"
  by (cases k; cases j) simp_all

lemma held_put_same: "singleton k \<Longrightarrow> held k (put k v s) = Some v"
  by (cases k) simp_all

subsection \<open>Rendering\<close>

lemma join_sep: "xs \<noteq> [] \<Longrightarrow> sep @ join sep xs = concat (map ((@) sep) xs)"
  by (induction sep xs rule: join.induct) simp_all

lemma join_attr: "xs \<noteq> [] \<Longrightarrow> ''['' @ join '']['' xs @ '']'' = concat (map (part_text Attr) xs)"
  by (induction "''][''" xs rule: join.induct) simp_all

lemma part_text_Class: "part_text Class = (@) ''.''"
  by (rule ext) simp

lemma part_text_PseudoClass: "part_text PseudoClass = (@) '':''"
  by (rule ext) simp

lemma Selector_stringify_eq:
  "Selector_stringify s =
     (segment Element s @ segment Id s @ segment Class s @ segment Attr s @
      segment PseudoClass s @ segment PseudoElement s, Selector_new)"
proof -
  have c: "(if length (classes s) \<noteq> 0 then ''.'' @ join ''.'' (classes s) else []) = segment Class s"
    using join_sep [of "classes s" "''.''"] by (simp add: part_text_Class)
  have a: "(if length (attributes s) \<noteq> 0 then ''['' @ join '']['' (attributes s) @ '']'' else [])
             = segment Attr s"
    using join_attr [of "attributes s"] by simp
  have p: "(if length (pseudoClasses s) \<noteq> 0 then '':'' @ join '':'' (pseudoClasses s) else [])
             = segment PseudoClass s"
    using join_sep [of "pseudoClasses s" "'':''"] by (simp add: part_text_PseudoClass)
  have "fst (Selector_stringify s) =
      segment Element s @ segment Id s
      @ (if length (classes s) \<noteq> 0 then ''.'' @ join ''.'' (classes s) else [])
      @ (if length (attributes s) \<noteq> 0 then ''['' @ join '']['' (attributes s) @ '']'' else [])
      @ (if length (pseudoClasses s) \<noteq> 0 then '':'' @ join '':'' (pseudoClasses s) else [])
      @ segment PseudoElement s"
    by (simp add: Selector_stringify_def Let_def)
  then have "fst (Selector_stringify s) = segment Element s @ segment Id s @ segment Class s @ segment Attr s @
      segment PseudoClass s @ segment PseudoElement s"
    by (simp only: c a p)
  moreover have "snd (Selector_stringify s) = Selector_new"
    by (simp add: Selector_stringify_def Let_def Selector_new_def)
  ultimately show ?thesis
    by (simp add: prod_eq_iff)
qed

lemma Builder_stringify_plain:
  "combined b = [] \<Longrightarrow>
     Builder_stringify b =
       (segment Element (current b) @ segment Id (current b) @ segment Class (current b) @
        segment Attr (current b) @ segment PseudoClass (current b) @
        segment PseudoElement (current b),
        b\<lparr>current := Selector_new, order := - 1\<rparr>)"
  by (simp add: Builder_stringify_def Selector_stringify_eq)

lemma Builder_stringify_combined:
  "combined b \<noteq> [] \<Longrightarrow>
     Builder_stringify b = (combined b, b\<lparr>order := - 1, combined := []\<rparr>)"
  by (simp add: Builder_stringify_def)

subsection \<open>Chains that pass every check\<close>

lemma chain_returns:
  assumes "sorted (map (\<lambda>p. rank (fst p)) ps)"
    and "\<forall>p\<in>set ps. order b \<le> rank (fst p)"
    and "distinct (filter singleton (map fst ps))"
    and "\<forall>p\<in>set ps. singleton (fst p) \<longrightarrow> \<not> truthy (held (fst p) (current b))"
  shows "chain ps b =
           Inr (b\<lparr>current := fold (\<lambda>p. put (fst p) (snd p)) ps (current b),
                   order := (if ps = [] then order b else rank (fst (last ps)))\<rparr>)"
  using assms
proof (induction ps arbitrary: b)
  case Nil
  then show ?case by simp
next
  case (Cons p ps)
  obtain k v where p: "p = (k, v)" by (cases p)
  let ?b = "b\<lparr>current := put k v (current b), order := rank k\<rparr>"
  have step: "addPart k v b = Inr ?b"
    using Cons.prems(2,4) by (auto simp: addPart_eq p)
  have 1: "sorted (map (\<lambda>p. rank (fst p)) ps)"
    using Cons.prems(1) by simp
  have 2: "\<forall>q\<in>set ps. order ?b \<le> rank (fst q)"
    using Cons.prems(1) by (simp add: p)
  have 3: "distinct (filter singleton (map fst ps))"
    using Cons.prems(3) by (simp split: if_splits)
  have 4: "\<forall>q\<in>set ps. singleton (fst q) \<longrightarrow> \<not> truthy (held (fst q) (current ?b))"
  proof (intro ballI impI)
    fix q assume q: "q \<in> set ps" "singleton (fst q)"
    have "fst q \<noteq> k"
    proof
      assume "fst q = k"
      with q have "k \<in> set (filter singleton (map fst ps))" "singleton k" by auto
      with Cons.prems(3) show False by (simp add: p)
    qed
    then show "\<not> truthy (held (fst q) (current ?b))"
      using Cons.prems(4) q by (simp add: held_put_other)
  qed
  show ?case
    using Cons.IH [OF 1 2 3 4] step by (simp add: p)
qed

lemma fold_put_lists:
  "classes (fold (\<lambda>p. put (fst p) (snd p)) ps s) = classes s @ supplied Class ps"
  "attributes (fold (\<lambda>p. put (fst p) (snd p)) ps s) = attributes s @ supplied Attr ps"
  "pseudoClasses (fold (\<lambda>p. put (fst p) (snd p)) ps s) = pseudoClasses s @ supplied PseudoClass ps"
proof (induction ps arbitrary: s)
  case Nil
  { case 1 show ?case by (simp add: supplied_def) }
  { case 2 show ?case by (simp add: supplied_def) }
  { case 3 show ?case by (simp add: supplied_def) }
next
  case (Cons p ps)
  { case 1 show ?case using Cons.IH(1) [of "put (fst p) (snd p) s"]
      by (cases "fst p") (simp_all add: supplied_def) }
  { case 2 show ?case using Cons.IH(2) [of "put (fst p) (snd p) s"]
      by (cases "fst p") (simp_all add: supplied_def) }
  { case 3 show ?case using Cons.IH(3) [of "put (fst p) (snd p) s"]
      by (cases "fst p") (simp_all add: supplied_def) }
qed

lemma fold_put_held:
  "singleton k \<Longrightarrow>
     held k (fold (\<lambda>p. put (fst p) (snd p)) ps s) =
       (if supplied k ps = [] then held k s else Some (last (supplied k ps)))"
proof (induction ps arbitrary: s)
  case Nil
  then show ?case by (simp add: supplied_def)
next
  case (Cons p ps)
  show ?case
  proof (cases "fst p = k")
    case True
    then show ?thesis
      using Cons.IH [OF Cons.prems, of "put (fst p) (snd p) s"] Cons.prems
      by (simp add: supplied_def held_put_same)
  next
    case False
    then show ?thesis
      using Cons.IH [OF Cons.prems, of "put (fst p) (snd p) s"]
      by (simp add: supplied_def held_put_other)
  qed
qed

lemma supplied_once:
  "singleton k \<Longrightarrow> distinct (filter singleton (map fst ps)) \<Longrightarrow>
     supplied k ps = [] \<or> (\<exists>v. supplied k ps = [v])"
proof (induction ps)
  case Nil
  then show ?case by (simp add: supplied_def)
next
  case (Cons p ps)
  show ?case
  proof (cases "fst p = k")
    case True
    with Cons.prems have "k \<notin> fst ` set ps" by auto
    then have "filter (\<lambda>q. fst q = k) ps = []"
      by (auto simp: filter_empty_conv)
    with True show ?thesis by (simp add: supplied_def)
  next
    case False
    then show ?thesis
      using Cons by (simp add: supplied_def split: if_splits)
  qed
qed

lemma segment_singleton:
  assumes "singleton k" and "supplied k ps = [] \<or> (\<exists>v. supplied k ps = [v])"
    and "k \<noteq> Element \<longrightarrow> [] \<notin> set (supplied k ps)"
  shows "segment k (fold (\<lambda>p. put (fst p) (snd p)) ps Selector_new) =
           concat (map (part_text k) (supplied k ps))"
proof -
  let ?s = "fold (\<lambda>p. put (fst p) (snd p)) ps Selector_new"
  have h: "held k ?s = (if supplied k ps = [] then None else Some (last (supplied k ps)))"
    using fold_put_held [OF assms(1), of ps Selector_new] assms(1)
    by (cases k) (simp_all add: Selector_new_def)
  from assms(2) show ?thesis
  proof
    assume "supplied k ps = []"
    with h assms(1) show ?thesis
      by (cases k) (simp_all add: truthy_def)
  next
    assume "\<exists>v. supplied k ps = [v]"
    then obtain v where v: "supplied k ps = [v]" ..
    with h assms(1,3) show ?thesis
      by (cases k) (auto simp: truthy_def toString_def)
  qed
qed

lemma fold_put_Class: "fold (put Class) vs s = s\<lparr>classes := classes s @ vs\<rparr>"
  by (induction vs arbitrary: s) simp_all

lemma fold_put_Attr: "fold (put Attr) vs s = s\<lparr>attributes := attributes s @ vs\<rparr>"
  by (induction vs arbitrary: s) simp_all

lemma fold_put_PseudoClass: "fold (put PseudoClass) vs s = s\<lparr>pseudoClasses := pseudoClasses s @ vs\<rparr>"
  by (induction vs arbitrary: s) simp_all

lemma segments_repeated:
  assumes "repeatable k"
  shows "segment Element (fold (put k) vs s) @ segment Id (fold (put k) vs s) @
         segment Class (fold (put k) vs s) @ segment Attr (fold (put k) vs s) @
         segment PseudoClass (fold (put k) vs s) @ segment PseudoElement (fold (put k) vs s)
         = upto_group k s @ concat (map (part_text k) vs) @ behind_group k s"
  using assms unfolding repeatable_def
  by (elim disjE)
     (simp_all add: fold_put_Class fold_put_Attr fold_put_PseudoClass upto_group_def
        behind_group_def kinds_def)

subsection \<open>Builders in the store\<close>

lemma stringify_eq:
  "stringify r h =
     (fst (Builder_stringify (cells h r)),
      h\<lparr>cells := (cells h)(r := snd (Builder_stringify (cells h r)))\<rparr>)"
  by (simp add: stringify_def split_beta)

lemma invoke_eq:
  "invoke m r h =
     ((case m (cells h r) of Inl (e, b) \<Rightarrow> Inl e | Inr b \<Rightarrow> Inr r),
      h\<lparr>cells := (cells h)(r := after (m (cells h r)))\<rparr>)"
  by (simp add: invoke_def split: sum.splits prod.splits)

lemma Builder_combine_eq:
  "Builder_combine this a c b h =
     (this,
      (snd (stringify b (snd (stringify a h))))
        \<lparr>cells := (cells (snd (stringify b (snd (stringify a h)))))
           (this := (cells (snd (stringify b (snd (stringify a h)))) this)
              \<lparr>combined := fst (stringify a h) @ '' '' @ c @ '' '' @
                            fst (stringify b (snd (stringify a h)))\<rparr>)\<rparr>)"
  by (simp add: Builder_combine_def split_beta)

lemma addPart_new: "addPart k v Builder_new = Inr (Builder_new\<lparr>current := put k v Selector_new, order := rank k\<rparr>)"
  by (cases k) (simp_all add: method_defs Builder_new_def Selector_new_def truthy_def)

lemma cssSelectorBuilder_part_eq:
  "cssSelectorBuilder_part k v h = invoke (addPart k v) (nxt h) (snd (new_Builder h))"
  by (cases k)
     (simp_all add: cssSelectorBuilder_element_def cssSelectorBuilder_id_def
        cssSelectorBuilder_class_def cssSelectorBuilder_attr_def
        cssSelectorBuilder_pseudoClass_def cssSelectorBuilder_pseudoElement_def new_Builder_def)

lemma nxt_stringify: "nxt (snd (stringify r h)) = nxt h"
  by (simp add: stringify_eq)

lemma nxt_invoke: "nxt (snd (invoke m r h)) = nxt h"
  by (simp add: invoke_eq)

lemma nxt_Builder_combine: "nxt (snd (Builder_combine this a c b h)) = nxt h"
  by (simp add: Builder_combine_eq nxt_stringify)

lemma nxt_exec: "nxt (exec a h) = (if factory a then Suc (nxt h) else nxt h)"
  by (cases a)
     (simp_all add: cssSelectorBuilder_part_eq cssSelectorBuilder_combine_def nxt_invoke
        nxt_stringify nxt_Builder_combine new_Builder_def)

lemma nxt_run: "nxt h \<le> nxt (run as h)"
proof (induction as arbitrary: h)
  case Nil
  then show ?case by simp
next
  case (Cons a as)
  have "nxt h \<le> nxt (exec a h)" by (simp add: nxt_exec)
  also have "\<dots> \<le> nxt (run as (exec a h))" by (rule Cons.IH)
  finally show ?case by simp
qed

lemma distinct_operands_text:
  assumes "a \<noteq> b"
  shows "fst (stringify this (snd (Builder_combine this a c b h)))
           = fst (stringify a h) @ '' '' @ c @ '' '' @ fst (stringify b h)"
proof -
  have "fst (stringify b (snd (stringify a h))) = fst (stringify b h)"
    using assms by (simp add: stringify_eq)
  then show ?thesis
    by (simp add: Builder_combine_eq stringify_eq Builder_stringify_def)
qed

lemma Builder_stringify_resets:
  "order (snd (Builder_stringify b)) = - 1"
  "combined (snd (Builder_stringify b)) = []"
  "combined b = [] \<Longrightarrow> snd (Builder_stringify b) = Builder_new"
  "current b = Selector_new \<Longrightarrow> snd (Builder_stringify b) = Builder_new"
  by (simp_all add: Builder_stringify_def split_beta Selector_stringify_eq Builder_new_def)

lemma Builder_stringify_new: "Builder_stringify Builder_new = ([], Builder_new)"
  by (simp add: Builder_stringify_def Selector_stringify_def Builder_new_def Selector_new_def
        truthy_def)

lemma Builder_combine_sets_combined:
  "combined (cells (snd (Builder_combine this a c b h)) this) \<noteq> []"
  by (simp add: Builder_combine_eq)

lemma combine_consumes_operands:
  assumes "this \<noteq> a" and "this \<noteq> b"
    and "combined (cells h a) = [] \<or> current (cells h a) = Selector_new"
    and "combined (cells h b) = [] \<or> current (cells h b) = Selector_new"
  shows "cells (snd (Builder_combine this a c b h)) a = Builder_new"
    and "cells (snd (Builder_combine this a c b h)) b = Builder_new"
    and "fst (stringify a (snd (Builder_combine this a c b h))) = []"
    and "fst (stringify b (snd (Builder_combine this a c b h))) = []"
proof -
  have a: "snd (Builder_stringify (cells h a)) = Builder_new"
    using assms(3) Builder_stringify_resets(3,4) by blast
  have b: "snd (Builder_stringify (cells h b)) = Builder_new"
    using assms(4) Builder_stringify_resets(3,4) by blast
  show 1: "cells (snd (Builder_combine this a c b h)) a = Builder_new"
    using assms(1) a b by (simp add: Builder_combine_eq stringify_eq Builder_stringify_new)
  show 2: "cells (snd (Builder_combine this a c b h)) b = Builder_new"
    using assms(2) a b by (simp add: Builder_combine_eq stringify_eq Builder_stringify_new)
  show "fst (stringify a (snd (Builder_combine this a c b h))) = []"
    using 1 by (simp add: stringify_eq Builder_stringify_new)
  show "fst (stringify b (snd (Builder_combine this a c b h))) = []"
    using 2 by (simp add: stringify_eq Builder_stringify_new)
qed

lemma other_cell_invoke: "r1 \<noteq> r2 \<Longrightarrow> cells (snd (invoke m r1 h)) r2 = cells h r2"
  by (simp add: invoke_eq)

lemma other_cell_stringify: "r1 \<noteq> r2 \<Longrightarrow> cells (snd (stringify r1 h)) r2 = cells h r2"
  by (simp add: stringify_eq)

section \<open>The properties of the specification\<close>

text \<open>
  C1 (as amended). A chain of part-adding calls on a new builder whose kinds have
  non-decreasing rank, in which each of element, id and pseudoElement is supplied at most
  once and the id and the pseudo-element are not the empty string, returns from every call,
  and the closing \<open>stringify()\<close> returns the concatenation in fixed order of the element
  name, \<open>#\<close> and the id, \<open>.\<close> and each class, each attribute clause in brackets, \<open>:\<close> and
  each pseudo-class, \<open>::\<close> and the pseudo-element; it leaves the builder as new.
\<close>

theorem chain_stringify_canonical:
  assumes "sorted (map (\<lambda>p. rank (fst p)) ps)"
    and "distinct (filter singleton (map fst ps))"
    and "[] \<notin> set (supplied Id ps)"
    and "[] \<notin> set (supplied PseudoElement ps)"
  shows "chain_stringify ps = Inr (canonical ps, Builder_new)"
proof -
  let ?s = "fold (\<lambda>p. put (fst p) (snd p)) ps Selector_new"
  let ?b = "Builder_new\<lparr>current := ?s,
              order := (if ps = [] then order Builder_new else rank (fst (last ps)))\<rparr>"
  have lo: "\<forall>p\<in>set ps. order Builder_new \<le> rank (fst p)"
  proof
    fix p show "order Builder_new \<le> rank (fst p)"
      by (cases "fst p") (simp_all add: Builder_new_def)
  qed
  have free: "\<forall>p\<in>set ps. singleton (fst p) \<longrightarrow> \<not> truthy (held (fst p) (current Builder_new))"
  proof (intro ballI impI)
    fix p assume "singleton (fst p)"
    then show "\<not> truthy (held (fst p) (current Builder_new))"
      by (cases "fst p") (simp_all add: Builder_new_def Selector_new_def truthy_def)
  qed
  have run: "chain ps Builder_new = Inr ?b"
    using chain_returns [OF assms(1) lo assms(2) free] by (simp add: Builder_new_def)
  have e: "segment Element ?s = concat (map (part_text Element) (supplied Element ps))"
    using segment_singleton [of Element ps] supplied_once [of Element ps] assms(2) by simp
  have i: "segment Id ?s = concat (map (part_text Id) (supplied Id ps))"
    using segment_singleton [of Id ps] supplied_once [of Id ps] assms(2,3) by simp
  have q: "segment PseudoElement ?s =
             concat (map (part_text PseudoElement) (supplied PseudoElement ps))"
    using segment_singleton [of PseudoElement ps] supplied_once [of PseudoElement ps] assms(2,4)
    by simp
  have c: "segment Class ?s = concat (map (part_text Class) (supplied Class ps))"
    by (simp only: segment.simps fold_put_lists) (simp add: Selector_new_def)
  have a: "segment Attr ?s = concat (map (part_text Attr) (supplied Attr ps))"
    by (simp only: segment.simps fold_put_lists) (simp add: Selector_new_def)
  have p: "segment PseudoClass ?s = concat (map (part_text PseudoClass) (supplied PseudoClass ps))"
    by (simp only: segment.simps fold_put_lists) (simp add: Selector_new_def)
  have "Builder_stringify ?b =
          (segment Element ?s @ segment Id ?s @ segment Class ?s @ segment Attr ?s @
           segment PseudoClass ?s @ segment PseudoElement ?s, Builder_new)"
    using Builder_stringify_plain [of ?b] by (simp add: Builder_new_def)
  then have "Builder_stringify ?b = (canonical ps, Builder_new)"
    by (simp only: e i c a p q canonical_def)
  with run show ?thesis
    by (simp add: chain_stringify_def)
qed

theorem chain_stringify_canonical_witness:
  "sorted (map (\<lambda>p. rank (fst p))
       [(Element, ''a''), (Attr, ''href$=\".png\"''), (PseudoClass, ''focus'')]) \<and>
   distinct (filter singleton (map fst
       [(Element, ''a''), (Attr, ''href$=\".png\"''), (PseudoClass, ''focus'')])) \<and>
   chain_stringify [(Element, ''a''), (Attr, ''href$=\".png\"''), (PseudoClass, ''focus'')]
     = Inr (''a[href$=\".png\"]:focus'', Builder_new)"
proof -
  let ?ps = "[(Element, ''a''), (Attr, ''href$=\".png\"''), (PseudoClass, ''focus'')]"
  have 1: "sorted (map (\<lambda>p. rank (fst p)) ?ps)" by simp
  have 2: "distinct (filter singleton (map fst ?ps))" by simp
  have 3: "[] \<notin> set (supplied Id ?ps)" by (simp add: supplied_def)
  have 4: "[] \<notin> set (supplied PseudoElement ?ps)" by (simp add: supplied_def)
  have "canonical ?ps = ''a[href$=\".png\"]:focus''"
    by (simp add: canonical_def supplied_def)
  with chain_stringify_canonical [OF 1 2 3 4] 1 2 show ?thesis by simp
qed

text \<open>
  C1 as it is stated fails: \<open>element('a').element('b')\<close> has non-decreasing ranks and
  throws at the second call, and \<open>id('').stringify()\<close> returns the empty text, not \<open>#\<close>.
\<close>

theorem chain_stringify_canonical_counterexample:
  "sorted (map (\<lambda>p. rank (fst p)) [(Element, ''a''), (Element, ''b'')]) \<and>
   chain_stringify [(Element, ''a''), (Element, ''b'')] = Inl (DuplicateSingleton, Builder_new) \<and>
   sorted (map (\<lambda>p. rank (fst p)) [(Id, [])]) \<and>
   chain_stringify [(Id, [])] = Inr ([], Builder_new) \<and>
   canonical [(Id, [])] = ''#''"
  by (simp add: chain_stringify_def method_defs Builder_new_def Selector_new_def truthy_def
        canonical_def supplied_def Builder_stringify_def Selector_stringify_def)

text \<open>
  C2. When a part-adding call has returned and a second call is of a kind of strictly lower
  rank than the rank the first one recorded, the second call throws the ordering error, and
  the builder is left with \<open>order\<close> at -1 and a new empty \<open>Selector\<close>.
\<close>

theorem lower_rank_raises_OrderViolation:
  assumes "addPart k1 v1 b = Inr b1" and "rank k2 < rank k1"
  shows "order b1 = rank k1 \<and>
         addPart k2 v2 b1 = Inl (OrderViolation, b1\<lparr>order := - 1, current := Selector_new\<rparr>)"
  using assms addPart_order [OF assms(1)] by (simp add: addPart_eq discard_def)

theorem lower_rank_raises_OrderViolation_witness:
  "addPart Class ''a'' Builder_new =
     Inr \<lparr>order = 2, current = Selector_new\<lparr>classes := [''a'']\<rparr>, combined = []\<rparr> \<and>
   rank Element < rank Class \<and>
   addPart Element ''div'' \<lparr>order = 2, current = Selector_new\<lparr>classes := [''a'']\<rparr>, combined = []\<rparr>
     = Inl (OrderViolation, \<lparr>order = - 1, current = Selector_new, combined = []\<rparr>)"
proof -
  have 1: "addPart Class ''a'' Builder_new =
     Inr \<lparr>order = 2, current = Selector_new\<lparr>classes := [''a'']\<rparr>, combined = []\<rparr>"
    by (simp add: Builder_class_def Builder_new_def Selector_new_def)
  have 2: "rank Element < rank Class" by simp
  from lower_rank_raises_OrderViolation [OF 1 2, of "''div''"] 1 2 show ?thesis by simp
qed

text \<open>
  C3 (as amended). When a call of a singleton kind (element, id, pseudoElement) has
  returned: if its value was not the empty string, a call of the same kind that follows
  at once throws the cardinality error; and after a non-empty run of calls of higher rank, a
  call of the same kind throws the ordering error. Both leave \<open>order\<close> at -1 and a new
  empty \<open>Selector\<close>.
\<close>

theorem repeated_singleton:
  assumes "singleton k" and "addPart k v1 b = Inr b1"
  shows "(v1 \<noteq> [] \<longrightarrow>
            addPart k v2 b1 = Inl (DuplicateSingleton, b1\<lparr>order := - 1, current := Selector_new\<rparr>)) \<and>
         (ps \<noteq> [] \<and> (\<forall>p\<in>set ps. rank k < rank (fst p)) \<and> chain ps b1 = Inr b2 \<longrightarrow>
            addPart k v2 b2 = Inl (OrderViolation, b2\<lparr>order := - 1, current := Selector_new\<rparr>))"
proof (intro conjI impI)
  assume "v1 \<noteq> []"
  moreover have "b1 = b\<lparr>current := put k v1 (current b), order := rank k\<rparr>"
    using assms(2) by (auto simp: addPart_eq split: if_splits)
  ultimately show "addPart k v2 b1 = Inl (DuplicateSingleton, b1\<lparr>order := - 1, current := Selector_new\<rparr>)"
    using assms(1) by (simp add: addPart_eq held_put_same truthy_def discard_def)
next
  assume a: "ps \<noteq> [] \<and> (\<forall>p\<in>set ps. rank k < rank (fst p)) \<and> chain ps b1 = Inr b2"
  then have "order b2 = rank (fst (last ps))"
    using chain_order [of ps b1 b2] by simp
  moreover have "last ps \<in> set ps" using a by simp
  ultimately have "rank k < order b2" using a by simp
  then show "addPart k v2 b2 = Inl (OrderViolation, b2\<lparr>order := - 1, current := Selector_new\<rparr>)"
    by (simp add: addPart_eq discard_def)
qed

theorem repeated_singleton_witness:
  "singleton Element \<and>
   addPart Element ''div'' Builder_new =
     Inr \<lparr>order = 0, current = Selector_new\<lparr>element := Some ''div''\<rparr>, combined = []\<rparr> \<and>
   ''div'' \<noteq> [] \<and>
   addPart Element ''span'' \<lparr>order = 0, current = Selector_new\<lparr>element := Some ''div''\<rparr>, combined = []\<rparr>
     = Inl (DuplicateSingleton, Builder_new) \<and>
   [(Id, ''main'')] \<noteq> [] \<and> rank Element < rank Id \<and>
   chain [(Id, ''main'')] \<lparr>order = 0, current = Selector_new\<lparr>element := Some ''div''\<rparr>, combined = []\<rparr>
     = Inr \<lparr>order = 1, current = Selector_new\<lparr>element := Some ''div'', id' := Some ''main''\<rparr>,
            combined = []\<rparr> \<and>
   addPart Element ''span''
       \<lparr>order = 1, current = Selector_new\<lparr>element := Some ''div'', id' := Some ''main''\<rparr>,
        combined = []\<rparr>
     = Inl (OrderViolation, Builder_new)"
proof -
  let ?b1 = "\<lparr>order = 0, current = Selector_new\<lparr>element := Some ''div''\<rparr>, combined = []\<rparr>"
  let ?b2 = "\<lparr>order = 1, current = Selector_new\<lparr>element := Some ''div'', id' := Some ''main''\<rparr>,
              combined = []\<rparr>"
  have 1: "singleton Element" by simp
  have 2: "addPart Element ''div'' Builder_new = Inr ?b1"
    by (simp add: method_defs Builder_new_def Selector_new_def truthy_def)
  have 3: "[(Id, ''main'')] \<noteq> [] \<and> (\<forall>p\<in>set [(Id, ''main'')]. rank Element < rank (fst p)) \<and>
           chain [(Id, ''main'')] ?b1 = Inr ?b2"
    by (simp add: method_defs Selector_new_def truthy_def)
  from repeated_singleton [OF 1 2, where ps = "[(Id, ''main'')]" and ?b2.0 = ?b2 and ?v2.0 = "''span''"] 1 2 3
  show ?thesis by (simp add: Builder_new_def)
qed

text \<open>
  C3 as it is stated fails: in \<open>element('div').id('main').element('span')\<close> the last call
  throws the ordering error, since the ordering check comes first; and after
  \<open>element('')\<close> a second \<open>element\<close> call returns.
\<close>

theorem repeated_singleton_counterexample:
  "chain [(Element, ''div''), (Id, ''main''), (Element, ''span'')] Builder_new
     = Inl (OrderViolation, Builder_new) \<and>
   OrderViolation \<noteq> DuplicateSingleton \<and>
   chain [(Element, []), (Element, ''span'')] Builder_new
     = Inr \<lparr>order = 0, current = Selector_new\<lparr>element := Some ''span''\<rparr>, combined = []\<rparr>"
  by (simp add: method_defs Builder_new_def Selector_new_def truthy_def)

text \<open>
  C4 (as amended). For two distinct builders \<open>A\<close> and \<open>B\<close> in any state (results of earlier
  \<open>combine\<close> calls included), any combinator \<open>c\<close> and any receiver, \<open>combine(A, c, B)\<close>
  followed by \<open>stringify()\<close> returns the text \<open>A.stringify()\<close> would have returned, one
  space, \<open>c\<close>, one space, and the text \<open>B.stringify()\<close> would have returned. The same holds
  of the facade function, whose receiver is a new builder.
\<close>

theorem combine_text_of_operands:
  assumes "selector1 \<noteq> selector2"
  shows "fst (stringify this (snd (Builder_combine this selector1 c selector2 h)))
           = fst (stringify selector1 h) @ '' '' @ c @ '' '' @ fst (stringify selector2 h) \<and>
         (selector1 < nxt h \<and> selector2 < nxt h \<longrightarrow>
            fst (stringify (fst (cssSelectorBuilder_combine selector1 c selector2 h))
                   (snd (cssSelectorBuilder_combine selector1 c selector2 h)))
              = fst (stringify selector1 h) @ '' '' @ c @ '' '' @ fst (stringify selector2 h))"
proof (intro conjI impI)
  show "fst (stringify this (snd (Builder_combine this selector1 c selector2 h)))
           = fst (stringify selector1 h) @ '' '' @ c @ '' '' @ fst (stringify selector2 h)"
    by (rule distinct_operands_text [OF assms])
next
  assume old: "selector1 < nxt h \<and> selector2 < nxt h"
  let ?h = "snd (new_Builder h)"
  have "fst (stringify selector1 ?h) = fst (stringify selector1 h)"
    and "fst (stringify selector2 ?h) = fst (stringify selector2 h)"
    using old by (simp_all add: stringify_eq new_Builder_def)
  moreover have "cssSelectorBuilder_combine selector1 c selector2 h
                   = Builder_combine (nxt h) selector1 c selector2 ?h"
    by (simp add: cssSelectorBuilder_combine_def new_Builder_def)
  moreover have "fst (Builder_combine (nxt h) selector1 c selector2 ?h) = nxt h"
    by (simp add: Builder_combine_eq)
  ultimately show "fst (stringify (fst (cssSelectorBuilder_combine selector1 c selector2 h))
                   (snd (cssSelectorBuilder_combine selector1 c selector2 h)))
              = fst (stringify selector1 h) @ '' '' @ c @ '' '' @ fst (stringify selector2 h)"
    using distinct_operands_text [OF assms, of "nxt h" c ?h] by simp
qed

theorem combine_text_of_operands_witness:
  "(0::nat) \<noteq> 5 \<and> 0 < nxt nested_example \<and> 5 < nxt nested_example \<and>
   fst (stringify 0 nested_example) = ''div#main.container.draggable'' \<and>
   fst (stringify 5 nested_example)
     = ''table#data ~ tr:nth-of-type(even)   td:nth-of-type(even)'' \<and>
   fst (stringify 3 (snd (Builder_combine 3 0 ''+'' 5 nested_example)))
     = ''div#main.container.draggable + table#data ~ tr:nth-of-type(even)   td:nth-of-type(even)'' \<and>
   fst (cssSelectorBuilder_combine 0 ''+'' 5 nested_example) = 6 \<and>
   fst (stringify 6 (snd (cssSelectorBuilder_combine 0 ''+'' 5 nested_example)))
     = ''div#main.container.draggable + table#data ~ tr:nth-of-type(even)   td:nth-of-type(even)''"
proof -
  have d: "(0::nat) \<noteq> 5" by simp
  have n: "nxt nested_example = 6"
    by (simp add: nested_example_def eval_defs)
  have a: "fst (stringify 0 nested_example) = ''div#main.container.draggable''"
    by (simp add: nested_example_def eval_defs)
  have b: "fst (stringify 5 nested_example)
             = ''table#data ~ tr:nth-of-type(even)   td:nth-of-type(even)''"
    by (simp add: nested_example_def eval_defs)
  have r: "fst (cssSelectorBuilder_combine 0 ''+'' 5 nested_example) = 6"
    by (simp add: cssSelectorBuilder_combine_def new_Builder_def Builder_combine_eq n)
  from combine_text_of_operands [OF d, of 3 "''+''" nested_example] d n a b r
  show ?thesis by simp
qed

text \<open>
  C4 as it is stated fails when both operands are the same builder: the first
  \<open>stringify()\<close> clears it, so the second one returns the empty text.
\<close>

theorem combine_text_of_operands_counterexample:
  "fst (stringify 0 (snd (cssSelectorBuilder_element ''div'' heap_empty))) = ''div'' \<and>
   fst (cssSelectorBuilder_combine 0 ''+'' 0 (snd (cssSelectorBuilder_element ''div'' heap_empty)))
     = 1 \<and>
   fst (stringify 1
          (snd (cssSelectorBuilder_combine 0 ''+'' 0
                  (snd (cssSelectorBuilder_element ''div'' heap_empty)))))
     = ''div + '' \<and>
   ''div + '' \<noteq> ''div'' @ '' '' @ ''+'' @ '' '' @ ''div''"
  by (simp add: eval_defs)

text \<open>
  C5 on the code. After \<open>const c = builder.combine(builder.element('a'), '+',
  builder.element('b')); c.element('div')\<close> the call \<open>c.stringify()\<close> returns the combined
  text and clears \<open>order\<close> and \<open>combined\<close>, but the selector still holds \<open>div\<close>, and a
  second \<open>c.stringify()\<close> returns \<open>div\<close>.
\<close>

theorem stringify_with_combined_keeps_parts:
  "fst (stringify 2 mixed_example) = ''a + b'' \<and>
   cells (snd (stringify 2 mixed_example)) 2
     = \<lparr>order = - 1, current = Selector_new\<lparr>element := Some ''div''\<rparr>, combined = []\<rparr> \<and>
   fst (stringify 2 (snd (stringify 2 mixed_example))) = ''div''"
  by (simp add: mixed_example_def eval_defs)

text \<open>
  C6 on the code. With \<open>c\<close> as above and \<open>const p = builder.element('p')\<close>, after
  \<open>builder.combine(c, '~', p)\<close> the operand \<open>p\<close> renders as the empty text, but
  \<open>c.stringify()\<close> returns \<open>div\<close>.
\<close>

theorem combine_leaves_parts_of_mixed_operand:
  "fst (cssSelectorBuilder_part Element ''p'' mixed_example) = Inr 3 \<and>
   fst (cssSelectorBuilder_combine 2 ''~'' 3 (exec (Facade_part Element ''p'') mixed_example)) = 4 \<and>
   fst (stringify 4 (run [Facade_part Element ''p'', Facade_combine 2 ''~'' 3] mixed_example))
     = ''a + b ~ p'' \<and>
   fst (stringify 2 (run [Facade_part Element ''p'', Facade_combine 2 ''~'' 3] mixed_example))
     = ''div'' \<and>
   fst (stringify 3 (run [Facade_part Element ''p'', Facade_combine 2 ''~'' 3] mixed_example))
     = []"
  by (simp add: mixed_example_def eval_defs)

text \<open>
  C7 (as amended). On a builder whose recorded rank does not exceed the rank of the kind,
  each of \<open>class\<close>, \<open>attr\<close> and \<open>pseudoClass\<close> can be called any number of times in a
  row and every call returns; the values are appended to the group of the kind, and when
  the builder holds no combined text they appear in \<open>stringify()\<close> in the order of the
  calls, behind the text of the groups up to that kind and before the groups behind it.
\<close>

theorem repeatable_calls:
  assumes "repeatable k" and "order b \<le> rank k"
  shows "chain (map (Pair k) vs) b =
           Inr (b\<lparr>current := fold (put k) vs (current b),
                   order := (if vs = [] then order b else rank k)\<rparr>) \<and>
         (combined b = [] \<longrightarrow>
            fst (Builder_stringify
                   (b\<lparr>current := fold (put k) vs (current b),
                       order := (if vs = [] then order b else rank k)\<rparr>))
              = upto_group k (current b) @ concat (map (part_text k) vs) @
                behind_group k (current b))"
proof -
  let ?ps = "map (Pair k) vs"
  have ns: "\<not> singleton k"
    using assms(1) by (auto simp: repeatable_def)
  have 1: "sorted (map (\<lambda>p. rank (fst p)) ?ps)"
    by (simp add: comp_def sorted_wrt_iff_nth_less)
  have 2: "\<forall>p\<in>set ?ps. order b \<le> rank (fst p)"
    using assms(2) by auto
  have 3: "distinct (filter singleton (map fst ?ps))"
    using ns by (simp add: comp_def filter_empty_conv[THEN iffD2])
  have 4: "\<forall>p\<in>set ?ps. singleton (fst p) \<longrightarrow> \<not> truthy (held (fst p) (current b))"
    using ns by auto
  have f: "fold (\<lambda>p. put (fst p) (snd p)) ?ps (current b) = fold (put k) vs (current b)"
    by (simp add: fold_map comp_def)
  have l: "?ps \<noteq> [] \<Longrightarrow> fst (last ?ps) = k"
    by (simp add: last_map)
  have "chain ?ps b =
           Inr (b\<lparr>current := fold (put k) vs (current b),
                   order := (if vs = [] then order b else rank k)\<rparr>)"
    using chain_returns [OF 1 2 3 4] l by (simp add: f)
  moreover have "combined b = [] \<longrightarrow>
            fst (Builder_stringify
                   (b\<lparr>current := fold (put k) vs (current b),
                       order := (if vs = [] then order b else rank k)\<rparr>))
              = upto_group k (current b) @ concat (map (part_text k) vs) @
                behind_group k (current b)"
    using segments_repeated [OF assms(1), of vs "current b"]
    by (simp add: Builder_stringify_plain)
  ultimately show ?thesis by simp
qed

theorem repeatable_calls_witness:
  "repeatable Class \<and>
   order \<lparr>order = 1, current = Selector_new\<lparr>id' := Some ''main''\<rparr>, combined = []\<rparr> \<le> rank Class \<and>
   chain (map (Pair Class) [''container'', ''editable''])
       \<lparr>order = 1, current = Selector_new\<lparr>id' := Some ''main''\<rparr>, combined = []\<rparr>
     = Inr \<lparr>order = 2,
            current = Selector_new\<lparr>id' := Some ''main'', classes := [''container'', ''editable'']\<rparr>,
            combined = []\<rparr> \<and>
   fst (Builder_stringify
          \<lparr>order = 2,
           current = Selector_new\<lparr>id' := Some ''main'', classes := [''container'', ''editable'']\<rparr>,
           combined = []\<rparr>)
     = ''#main.container.editable''"
proof -
  let ?b = "\<lparr>order = 1, current = Selector_new\<lparr>id' := Some ''main''\<rparr>, combined = []\<rparr>"
  have 1: "repeatable Class" by (simp add: repeatable_def)
  have 2: "order ?b \<le> rank Class" by simp
  from repeatable_calls [OF 1 2, of "[''container'', ''editable'']"] 1 2
  show ?thesis
    by (simp add: Selector_new_def upto_group_def behind_group_def kinds_def truthy_def
          toString_def)
qed

text \<open>
  C7 as it is stated fails: after \<open>pseudoElement('after')\<close> a first \<open>class\<close> call throws
  the ordering error, and on a builder that holds a combined text the classes added do
  not appear in what \<open>stringify()\<close> returns.
\<close>

theorem repeatable_calls_counterexample:
  "addPart PseudoElement ''after'' Builder_new
     = Inr \<lparr>order = 5, current = Selector_new\<lparr>pseudoElement := Some ''after''\<rparr>, combined = []\<rparr> \<and>
   chain (map (Pair Class) [''a''])
       \<lparr>order = 5, current = Selector_new\<lparr>pseudoElement := Some ''after''\<rparr>, combined = []\<rparr>
     = Inl (OrderViolation, Builder_new) \<and>
   cells combined_example 2 = \<lparr>order = - 1, current = Selector_new, combined = ''a + b''\<rparr> \<and>
   chain (map (Pair Class) [''x'', ''y''])
       \<lparr>order = - 1, current = Selector_new, combined = ''a + b''\<rparr>
     = Inr \<lparr>order = 2, current = Selector_new\<lparr>classes := [''x'', ''y'']\<rparr>, combined = ''a + b''\<rparr> \<and>
   fst (Builder_stringify
          \<lparr>order = 2, current = Selector_new\<lparr>classes := [''x'', ''y'']\<rparr>, combined = ''a + b''\<rparr>)
     = ''a + b''"
  by (simp add: combined_example_def eval_defs)

text \<open>
  C8. A facade call of a part-adding function returns a new reference, never throws, and
  the object there is a new builder to which the part was added; a facade \<open>combine\<close>
  returns a new reference as well, whose object is a new builder holding the combined
  text. A reference returned by a facade call differs from the one any later facade call
  returns. A part-adding call or a \<open>stringify()\<close> on one builder leaves every other
  builder as it was, and what the other one renders.
\<close>

theorem facade_builders_independent:
  "cssSelectorBuilder_part k v h
     = (Inr (nxt h),
        h\<lparr>cells := (cells h)(nxt h := Builder_new\<lparr>current := put k v Selector_new, order := rank k\<rparr>),
          nxt := Suc (nxt h)\<rparr>) \<and>
   fst (cssSelectorBuilder_combine a c b h) = nxt h \<and>
   nxt (snd (cssSelectorBuilder_combine a c b h)) = Suc (nxt h) \<and>
   (a < nxt h \<and> b < nxt h \<longrightarrow>
      cells (snd (cssSelectorBuilder_combine a c b h)) (nxt h)
        = Builder_new\<lparr>combined := fst (stringify a h) @ '' '' @ c @ '' '' @
                                   fst (stringify b (snd (stringify a h)))\<rparr>) \<and>
   (factory f \<longrightarrow> nxt h0 < nxt (run as (exec f h0))) \<and>
   (r1 \<noteq> r2 \<longrightarrow>
      cells (snd (invoke (addPart k v) r1 h)) r2 = cells h r2 \<and>
      cells (snd (stringify r1 h)) r2 = cells h r2 \<and>
      fst (stringify r2 (snd (invoke (addPart k v) r1 h))) = fst (stringify r2 h) \<and>
      fst (stringify r2 (snd (stringify r1 h))) = fst (stringify r2 h))"
proof (intro conjI impI)
  show "cssSelectorBuilder_part k v h
     = (Inr (nxt h),
        h\<lparr>cells := (cells h)(nxt h := Builder_new\<lparr>current := put k v Selector_new, order := rank k\<rparr>),
          nxt := Suc (nxt h)\<rparr>)"
    by (simp add: cssSelectorBuilder_part_eq invoke_eq new_Builder_def addPart_new)
next
  show "fst (cssSelectorBuilder_combine a c b h) = nxt h"
    by (simp add: cssSelectorBuilder_combine_def new_Builder_def Builder_combine_eq)
next
  show "nxt (snd (cssSelectorBuilder_combine a c b h)) = Suc (nxt h)"
    by (simp add: cssSelectorBuilder_combine_def new_Builder_def nxt_Builder_combine)
next
  assume "a < nxt h \<and> b < nxt h"
  then show "cells (snd (cssSelectorBuilder_combine a c b h)) (nxt h)
        = Builder_new\<lparr>combined := fst (stringify a h) @ '' '' @ c @ '' '' @
                                   fst (stringify b (snd (stringify a h)))\<rparr>"
    by (simp add: cssSelectorBuilder_combine_def new_Builder_def Builder_combine_eq stringify_eq)
next
  assume "factory f"
  then have "nxt h0 < nxt (exec f h0)" by (simp add: nxt_exec)
  also have "\<dots> \<le> nxt (run as (exec f h0))" by (rule nxt_run)
  finally show "nxt h0 < nxt (run as (exec f h0))" .
next
  assume "r1 \<noteq> r2"
  then show "cells (snd (invoke (addPart k v) r1 h)) r2 = cells h r2"
    by (rule other_cell_invoke)
next
  assume "r1 \<noteq> r2"
  then show "cells (snd (stringify r1 h)) r2 = cells h r2"
    by (rule other_cell_stringify)
next
  assume "r1 \<noteq> r2"
  then show "fst (stringify r2 (snd (invoke (addPart k v) r1 h))) = fst (stringify r2 h)"
    by (simp add: stringify_eq invoke_eq)
next
  assume "r1 \<noteq> r2"
  then show "fst (stringify r2 (snd (stringify r1 h))) = fst (stringify r2 h)"
    by (simp add: stringify_eq)
qed

theorem facade_builders_independent_witness:
  "factory (Facade_part Id ''main'') \<and>
   nxt heap_empty
     < nxt (run [Call_part 0 Class ''container''] (exec (Facade_part Id ''main'') heap_empty)) \<and>
   (0::nat) < nxt two_chains_example \<and> (1::nat) < nxt two_chains_example \<and> (0::nat) \<noteq> 1 \<and>
   fst (cssSelectorBuilder_part Class ''editable'' two_chains_example) = Inr 2 \<and>
   cells (snd (cssSelectorBuilder_combine 0 ''>'' 1 two_chains_example)) 2
     = Builder_new\<lparr>combined := ''#main.container > a[href]''\<rparr> \<and>
   cells (snd (invoke (addPart Class ''editable'') 0 two_chains_example)) 1
     = cells two_chains_example 1 \<and>
   cells (snd (stringify 0 two_chains_example)) 1 = cells two_chains_example 1 \<and>
   fst (stringify 1 (snd (invoke (addPart Class ''editable'') 0 two_chains_example))) = ''a[href]'' \<and>
   fst (stringify 1 (snd (stringify 0 two_chains_example))) = ''a[href]'' \<and>
   fst (stringify 1 two_chains_example) = ''a[href]''"
proof -
  have f: "factory (Facade_part Id ''main'')" by simp
  have n: "nxt two_chains_example = 2"
    by (simp add: two_chains_example_def eval_defs)
  have d: "(0::nat) \<noteq> 1" by simp
  have s: "fst (stringify 1 two_chains_example) = ''a[href]''"
    by (simp add: two_chains_example_def eval_defs)
  have t: "fst (stringify 0 two_chains_example) = ''#main.container''"
    by (simp add: two_chains_example_def eval_defs)
  have u: "fst (stringify 1 (snd (stringify 0 two_chains_example))) = ''a[href]''"
    by (simp add: two_chains_example_def eval_defs)
  from facade_builders_independent
         [where k = Class and v = "''editable''" and h = two_chains_example and a = 0
            and c = "''>''" and b = 1 and f = "Facade_part Id ''main''" and ?h0.0 = heap_empty
            and as = "[Call_part 0 Class ''container'']" and ?r1.0 = 0 and ?r2.0 = 1]
       f n d s t u
  show ?thesis by simp
qed

text \<open>
  C9 (as amended). The cardinality check tests the stored field for truthiness. When a
  call of a singleton kind with the empty string has returned, the field holds the empty
  string, and a call of that kind that follows at once returns and overwrites the stored
  value. On any builder whose field of that kind holds the empty string, a call of the
  kind never throws the cardinality error: it returns and overwrites the value when the
  recorded rank does not exceed the rank of the kind, and it throws the ordering error,
  leaving \<open>order\<close> at -1 and a new empty \<open>Selector\<close>, when the recorded rank exceeds it.
\<close>

theorem empty_singleton_not_duplicate:
  assumes "singleton k"
  shows "(addPart k [] b0 = Inr b1 \<longrightarrow>
            held k (current b1) = Some [] \<and>
            addPart k v b1 = Inr (b1\<lparr>current := put k v (current b1), order := rank k\<rparr>) \<and>
            held k (put k v (current b1)) = Some v) \<and>
         (held k (current b) = Some [] \<longrightarrow>
            (\<forall>b'. addPart k v b \<noteq> Inl (DuplicateSingleton, b')) \<and>
            (order b \<le> rank k \<longrightarrow>
               addPart k v b = Inr (b\<lparr>current := put k v (current b), order := rank k\<rparr>) \<and>
               held k (put k v (current b)) = Some v) \<and>
            (rank k < order b \<longrightarrow>
               addPart k v b = Inl (OrderViolation, b\<lparr>order := - 1, current := Selector_new\<rparr>)))"
proof (intro conjI impI allI)
  assume a: "addPart k [] b0 = Inr b1"
  then have b1: "b1 = b0\<lparr>current := put k [] (current b0), order := rank k\<rparr>"
    by (auto simp: addPart_eq split: if_splits)
  then show h: "held k (current b1) = Some []"
    using assms by (simp add: held_put_same)
  from h b1 show "addPart k v b1 = Inr (b1\<lparr>current := put k v (current b1), order := rank k\<rparr>)"
    by (simp add: addPart_eq truthy_def)
  show "held k (put k v (current b1)) = Some v"
    using assms by (simp add: held_put_same)
next
  fix b'
  assume "held k (current b) = Some []"
  then show "addPart k v b \<noteq> Inl (DuplicateSingleton, b')"
    by (simp add: addPart_eq truthy_def)
next
  assume "held k (current b) = Some []" and "order b \<le> rank k"
  then show "addPart k v b = Inr (b\<lparr>current := put k v (current b), order := rank k\<rparr>)"
    by (simp add: addPart_eq truthy_def)
next
  show "held k (put k v (current b)) = Some v"
    using assms by (simp add: held_put_same)
next
  assume "rank k < order b"
  then show "addPart k v b = Inl (OrderViolation, b\<lparr>order := - 1, current := Selector_new\<rparr>)"
    by (simp add: addPart_eq discard_def)
qed

theorem empty_singleton_not_duplicate_witness:
  "singleton Element \<and>
   addPart Element [] Builder_new
     = Inr \<lparr>order = 0, current = Selector_new\<lparr>element := Some []\<rparr>, combined = []\<rparr> \<and>
   addPart Element ''div'' \<lparr>order = 0, current = Selector_new\<lparr>element := Some []\<rparr>, combined = []\<rparr>
     = Inr \<lparr>order = 0, current = Selector_new\<lparr>element := Some ''div''\<rparr>, combined = []\<rparr> \<and>
   held Element (current \<lparr>order = 2, current = Selector_new\<lparr>element := Some [], classes := [''x'']\<rparr>,
                           combined = []\<rparr>) = Some [] \<and>
   rank Element < order \<lparr>order = 2, current = Selector_new\<lparr>element := Some [], classes := [''x'']\<rparr>,
                          combined = []\<rparr> \<and>
   addPart Element ''div''
       \<lparr>order = 2, current = Selector_new\<lparr>element := Some [], classes := [''x'']\<rparr>, combined = []\<rparr>
     = Inl (OrderViolation, Builder_new) \<and>
   held Element (current \<lparr>order = 0, current = Selector_new\<lparr>element := Some []\<rparr>, combined = []\<rparr>)
     = Some [] \<and>
   order \<lparr>order = 0, current = Selector_new\<lparr>element := Some []\<rparr>, combined = []\<rparr> \<le> rank Element"
proof -
  let ?b1 = "\<lparr>order = 0, current = Selector_new\<lparr>element := Some []\<rparr>, combined = []\<rparr>"
  let ?b = "\<lparr>order = 2, current = Selector_new\<lparr>element := Some [], classes := [''x'']\<rparr>,
             combined = []\<rparr>"
  have 1: "singleton Element" by simp
  have 2: "addPart Element [] Builder_new = Inr ?b1"
    by (simp add: method_defs Builder_new_def Selector_new_def truthy_def)
  have 3: "held Element (current ?b) = Some []" by simp
  have 4: "rank Element < order ?b" by simp
  have 5: "held Element (current ?b1) = Some []" by simp
  have 6: "order ?b1 \<le> rank Element" by simp
  from empty_singleton_not_duplicate
         [OF 1, where ?b0.0 = Builder_new and ?b1.0 = ?b1 and b = ?b and v = "''div''"]
       empty_singleton_not_duplicate
         [OF 1, where ?b0.0 = Builder_new and ?b1.0 = ?b1 and b = ?b1 and v = "''div''"]
       1 2 3 4 5 6
  show ?thesis by (simp add: Builder_new_def Selector_new_def)
qed

text \<open>
  C9 as it is stated fails: in \<open>element('').class('x').element('div')\<close> the element was
  last supplied with the empty string, and the second \<open>element\<close> call throws the ordering
  error and clears the selector; it does not overwrite the stored value.
\<close>

theorem empty_singleton_not_duplicate_counterexample:
  "chain [(Element, []), (Class, ''x'')] Builder_new
     = Inr \<lparr>order = 2, current = Selector_new\<lparr>element := Some [], classes := [''x'']\<rparr>,
            combined = []\<rparr> \<and>
   chain [(Element, []), (Class, ''x''), (Element, ''div'')] Builder_new
     = Inl (OrderViolation, Builder_new) \<and>
   current (after (chain [(Element, []), (Class, ''x''), (Element, ''div'')] Builder_new))
     \<noteq> Selector_new\<lparr>element := Some ''div'', classes := [''x'']\<rparr>"
  by (simp add: method_defs Builder_new_def Selector_new_def truthy_def)

text \<open>
  C10. A part-adding call that throws on a builder whose \<open>combined\<close> text is set clears
  \<open>order\<close> and the selector and leaves \<open>combined\<close> as it was, so that \<open>stringify()\<close>
  then still returns the combined text.
\<close>

theorem failing_call_keeps_combined:
  assumes "combined b \<noteq> []" and "addPart k v b = Inl (e, b')"
  shows "combined b' = combined b \<and> order b' = - 1 \<and> current b' = Selector_new \<and>
         fst (Builder_stringify b') = combined b"
proof -
  have "b' = discard b"
    using assms(2) by (auto simp: addPart_eq split: if_splits)
  with assms(1) show ?thesis
    by (simp add: discard_def Builder_stringify_def)
qed

theorem failing_call_keeps_combined_witness:
  "cells (run [Call_part 2 Class ''c''] combined_example) 2
     = \<lparr>order = 2, current = Selector_new\<lparr>classes := [''c'']\<rparr>, combined = ''a + b''\<rparr> \<and>
   combined \<lparr>order = 2, current = Selector_new\<lparr>classes := [''c'']\<rparr>, combined = ''a + b''\<rparr> \<noteq> [] \<and>
   addPart Element ''div'' \<lparr>order = 2, current = Selector_new\<lparr>classes := [''c'']\<rparr>, combined = ''a + b''\<rparr>
     = Inl (OrderViolation, \<lparr>order = - 1, current = Selector_new, combined = ''a + b''\<rparr>) \<and>
   fst (Builder_stringify \<lparr>order = - 1, current = Selector_new, combined = ''a + b''\<rparr>) = ''a + b''"
proof -
  let ?b = "\<lparr>order = 2, current = Selector_new\<lparr>classes := [''c'']\<rparr>, combined = ''a + b''\<rparr>"
  have 0: "cells (run [Call_part 2 Class ''c''] combined_example) 2 = ?b"
    by (simp add: combined_example_def eval_defs)
  have 1: "combined ?b \<noteq> []" by simp
  have 2: "addPart Element ''div'' ?b =
             Inl (OrderViolation, \<lparr>order = - 1, current = Selector_new, combined = ''a + b''\<rparr>)"
    by (simp add: method_defs)
  from failing_call_keeps_combined [OF 1 2] 0 1 2 show ?thesis by simp
qed

end
